theory Spec2Isabelle
  imports Main "HOL-Library.Word"
begin

unbundle bit_operations_syntax

section \<open>Bytes, exceptions and Python's \<open>int.to_bytes\<close>\<close>

text \<open>
  A Python \<open>bytes\<close> object is a list of octets. The only exceptions the script can raise
  are the \<open>OverflowError\<close> of \<open>int.to_bytes\<close> and the \<open>OSError\<close> of
  \<open>Path.read_bytes\<close>; a computation that may raise returns \<open>error + 'a\<close>.
\<close>

type_synonym byte = "8 word"

datatype error = OverflowError | OSError

text \<open>
  \<open>le_bytes n v\<close> are the \<open>n\<close> low base-256 digits of \<open>v\<close>, least significant first.
\<close>

fun le_bytes :: "nat \<Rightarrow> int \<Rightarrow> byte list" where
  "le_bytes 0 v = []"
| "le_bytes (Suc n) v = word_of_int (v mod 256) # le_bytes n (v div 256)"

text \<open>
  \<open>val.to_bytes(length, byteorder=...)\<close> with the default \<open>signed=False\<close>: a negative
  value and a value that does not fit into \<open>length\<close> bytes both raise \<open>OverflowError\<close>.
\<close>

definition ordered_bytes :: "bool \<Rightarrow> int \<Rightarrow> nat \<Rightarrow> byte list" where
  "ordered_bytes big val len = (if big then rev (le_bytes len val) else le_bytes len val)"

definition to_bytes :: "int \<Rightarrow> nat \<Rightarrow> bool \<Rightarrow> error + byte list" where
  "to_bytes val len big =
     (if val < 0 then Inl OverflowError
      else if 256 ^ len \<le> val then Inl OverflowError
      else Inr (ordered_bytes big val len))"

section \<open>\<open>gen_headers\<close>\<close>

text \<open>
  The inner helper \<open>int_encode\<close> closes over \<open>be\<close>, which is its first argument here.
\<close>

definition int_encode :: "bool \<Rightarrow> int \<Rightarrow> nat \<Rightarrow> error + byte list" where
  "int_encode be val len = to_bytes val len be"

text \<open>
  One statement \<open>ret += int_encode(val, length)\<close>. The argument is either the exception
  already raised by an earlier statement, which skips this one, or the current \<open>ret\<close>.
\<close>

definition append_encoded :: "bool \<Rightarrow> int \<Rightarrow> nat \<Rightarrow> error + byte list \<Rightarrow> error + byte list" where
  "append_encoded be val len r =
     (case r of
        Inl e \<Rightarrow> Inl e
      | Inr ret \<Rightarrow> (case int_encode be val len of Inl e \<Rightarrow> Inl e | Inr bs \<Rightarrow> Inr (ret @ bs)))"

definition gen_headers :: "int \<Rightarrow> int \<Rightarrow> bool \<Rightarrow> bool \<Rightarrow> int \<Rightarrow> error + byte list" where
  "gen_headers target_id instr_len is64bit be flags =
     (let LOAD_ADDR = (0x10000 :: int);
          (EHDR_SIZE, PHTB_SIZE, ADDR_SIZE) =
             (if is64bit then (64 :: int, 56 :: int, 8 :: nat) else (52, 32, 4));
          HEADER_SIZE = EHDR_SIZE + PHTB_SIZE;
          ret = Inr ((0x7f # map of_char ''ELF'') @
                     ([if is64bit then 2 else 1]
                      @ [if be then 2 else 1]
                      @ [1]
                      @ [0, 0]
                      @ replicate 7 0));
          ret = append_encoded be 2 2 ret;
          ret = append_encoded be target_id 2 ret;
          ret = append_encoded be 1 4 ret;
          ret = append_encoded be (LOAD_ADDR + HEADER_SIZE) ADDR_SIZE ret;
          ret = append_encoded be EHDR_SIZE ADDR_SIZE ret;
          ret = append_encoded be 0 ADDR_SIZE ret;
          ret = append_encoded be flags 4 ret;
          ret = append_encoded be EHDR_SIZE 2 ret;
          ret = append_encoded be PHTB_SIZE 2 ret;
          ret = append_encoded be 1 2 ret;
          ret = append_encoded be 0 2 ret;
          ret = append_encoded be 0 2 ret;
          ret = append_encoded be 0 2 ret;
          ret = append_encoded be 1 4 ret;
          ret = (if is64bit
                 then append_encoded be (push_bit 0 1 OR push_bit 2 1) 4 ret
                 else ret);
          ret = append_encoded be 0x0 ADDR_SIZE ret;
          ret = append_encoded be LOAD_ADDR ADDR_SIZE ret;
          ret = append_encoded be 0x0 ADDR_SIZE ret;
          ret = append_encoded be (HEADER_SIZE + instr_len) ADDR_SIZE ret;
          ret = append_encoded be (HEADER_SIZE + instr_len) ADDR_SIZE ret;
          ret = (if \<not> is64bit
                 then append_encoded be (push_bit 0 1 OR push_bit 2 1) 4 ret
                 else ret);
          ret = append_encoded be 2 ADDR_SIZE ret
      in ret)"

text \<open>A call that leaves \<open>is64bit\<close>, \<open>be\<close> and \<open>flags\<close> at their defaults.\<close>

definition gen_headers_default :: "int \<Rightarrow> int \<Rightarrow> error + byte list" where
  "gen_headers_default target_id instr_len = gen_headers target_id instr_len True False 0"

section \<open>Observing the header\<close>

text \<open>\<open>bs[a:b]\<close> for \<open>0 \<le> a \<le> b\<close>.\<close>

definition slice :: "nat \<Rightarrow> nat \<Rightarrow> 'a list \<Rightarrow> 'a list" where
  "slice a b bs = take (b - a) (drop a bs)"

text \<open>
  The widths of the fields in the order \<open>gen_headers\<close> writes them: the sixteen bytes of
  \<open>e_ident\<close>, then \<open>e_type\<close>, \<open>e_machine\<close>, \<open>e_version\<close>, \<open>e_entry\<close>, \<open>e_phoff\<close>,
  \<open>e_shoff\<close>, \<open>e_flags\<close>, \<open>e_ehsize\<close>, \<open>e_phentsize\<close>, \<open>e_phnum\<close>, \<open>e_shentsize\<close>,
  \<open>e_shnum\<close>, \<open>e_shstrndx\<close>, \<open>p_type\<close>, (\<open>p_flags\<close> in a 64-bit header), \<open>p_offset\<close>,
  \<open>p_vaddr\<close>, \<open>p_paddr\<close>, \<open>p_filesz\<close>, \<open>p_memsz\<close>, (\<open>p_flags\<close> in a 32-bit header) and
  \<open>p_align\<close>.
\<close>

definition field_widths :: "bool \<Rightarrow> nat list" where
  "field_widths is64bit =
     (let ADDR_SIZE = (if is64bit then 8 else 4)
      in replicate 16 1
         @ [2, 2, 4, ADDR_SIZE, ADDR_SIZE, ADDR_SIZE, 4, 2, 2, 2, 2, 2, 2]
         @ [4]
         @ (if is64bit then [4] else [])
         @ [ADDR_SIZE, ADDR_SIZE, ADDR_SIZE, ADDR_SIZE, ADDR_SIZE]
         @ (if \<not> is64bit then [4] else [])
         @ [ADDR_SIZE])"

fun split_fields :: "nat list \<Rightarrow> 'a list \<Rightarrow> 'a list list" where
  "split_fields [] bs = []"
| "split_fields (w # ws) bs = take w bs # split_fields ws (drop w bs)"

text \<open>The bytes with the order inside every field reversed.\<close>

definition reversed_fields :: "nat list \<Rightarrow> 'a list \<Rightarrow> 'a list" where
  "reversed_fields ws bs = concat (map rev (split_fields ws bs))"

definition set_byte :: "nat \<Rightarrow> byte \<Rightarrow> byte list \<Rightarrow> byte list" where
  "set_byte i b bs = bs[i := b]"

text \<open>
  The values for which no \<open>int_encode\<close> of \<open>gen_headers\<close> raises: \<open>target_id\<close> fits two
  bytes, \<open>flags\<close> four, and \<open>HEADER_SIZE + instr_len\<close> an address.
\<close>

definition in_range :: "int \<Rightarrow> int \<Rightarrow> bool \<Rightarrow> int \<Rightarrow> bool" where
  "in_range target_id instr_len is64bit flags =
     (0 \<le> target_id \<and> target_id < 2 ^ 16 \<and> 0 \<le> flags \<and> flags < 2 ^ 32 \<and>
      (if is64bit then 0 \<le> 120 + instr_len \<and> 120 + instr_len < 2 ^ 64
       else 0 \<le> 84 + instr_len \<and> 84 + instr_len < 2 ^ 32))"

text \<open>
  The fields of a returned header written out, as lists of bytes; they are proved below
  to be what \<open>gen_headers\<close> returns for the values in range.
\<close>

definition e_ident :: "bool \<Rightarrow> bool \<Rightarrow> byte list" where
  "e_ident is64bit be =
     [0x7f, 0x45, 0x4c, 0x46, if is64bit then 2 else 1, if be then 2 else 1, 1, 0, 0,
      0, 0, 0, 0, 0, 0, 0]"

definition fields64 :: "int \<Rightarrow> int \<Rightarrow> bool \<Rightarrow> int \<Rightarrow> byte list list" where
  "fields64 t n be fl =
     [ordered_bytes be 2 2, ordered_bytes be t 2, ordered_bytes be 1 4,
      ordered_bytes be 0x10078 8, ordered_bytes be 64 8, ordered_bytes be 0 8,
      ordered_bytes be fl 4, ordered_bytes be 64 2, ordered_bytes be 56 2,
      ordered_bytes be 1 2, ordered_bytes be 0 2, ordered_bytes be 0 2,
      ordered_bytes be 0 2, ordered_bytes be 1 4, ordered_bytes be 5 4,
      ordered_bytes be 0 8, ordered_bytes be 0x10000 8, ordered_bytes be 0 8,
      ordered_bytes be (120 + n) 8, ordered_bytes be (120 + n) 8, ordered_bytes be 2 8]"

definition fields32 :: "int \<Rightarrow> int \<Rightarrow> bool \<Rightarrow> int \<Rightarrow> byte list list" where
  "fields32 t n be fl =
     [ordered_bytes be 2 2, ordered_bytes be t 2, ordered_bytes be 1 4,
      ordered_bytes be 0x10054 4, ordered_bytes be 52 4, ordered_bytes be 0 4,
      ordered_bytes be fl 4, ordered_bytes be 52 2, ordered_bytes be 32 2,
      ordered_bytes be 1 2, ordered_bytes be 0 2, ordered_bytes be 0 2,
      ordered_bytes be 0 2, ordered_bytes be 1 4,
      ordered_bytes be 0 4, ordered_bytes be 0x10000 4, ordered_bytes be 0 4,
      ordered_bytes be (84 + n) 4, ordered_bytes be (84 + n) 4, ordered_bytes be 5 4,
      ordered_bytes be 2 4]"

definition header_fields :: "int \<Rightarrow> int \<Rightarrow> bool \<Rightarrow> bool \<Rightarrow> int \<Rightarrow> byte list list" where
  "header_fields t n is64bit be fl =
     map (\<lambda>b. [b]) (e_ident is64bit be)
     @ (if is64bit then fields64 t n be fl else fields32 t n be fl)"

text \<open>
  The constants of \<open>elf.h\<close> that the comments of \<open>gen_headers\<close> name: \<open>PT_LOAD\<close> and the
  permission bits, of which the source writes \<open>PF_X\<close> as \<open>1 << 0\<close> and \<open>PF_R\<close> as
  \<open>1 << 2\<close>; \<open>PF_W\<close> is \<open>1 << 1\<close> in \<open>elf.h\<close>.
\<close>

definition PT_LOAD :: int where
  "PT_LOAD = 1"

definition PF_X :: int where
  "PF_X = push_bit 0 1"

definition PF_W :: int where
  "PF_W = push_bit 1 1"

definition PF_R :: int where
  "PF_R = push_bit 2 1"

section \<open>The instruction streams and the fixture comparison\<close>

definition ARM64_INSTRUCTIONS :: "byte list" where
  "ARM64_INSTRUCTIONS =
     [0xa8, 0x0b, 0x80, 0x52] @ [0x00, 0x00, 0x80, 0xd2] @ [0x01, 0x00, 0x00, 0xd4]"

definition I386_INSTRUCTIONS :: "byte list" where
  "I386_INSTRUCTIONS = [0x6a, 0x01] @ [0x58] @ [0x31, 0xd2] @ [0xcd, 0x80]"

definition RISCV64_INSTRUCTIONS :: "byte list" where
  "RISCV64_INSTRUCTIONS = [0x93, 0x08, 0xd0, 0x05] @ [0x01, 0x45] @ [0x73, 0x00, 0x00, 0x00]"

definition S390X_INSTRUCTIONS :: "byte list" where
  "S390X_INSTRUCTIONS = [0xa7, 0x29, 0x00, 0x00] @ [0x0a, 0x01]"

definition X86_64_INSTRUCTIONS :: "byte list" where
  "X86_64_INSTRUCTIONS = [0x6a, 0x3c] @ [0x58] @ [0x31, 0xff] @ [0x0f, 0x05]"

text \<open>\<open>gen_headers(...) + INSTRUCTIONS\<close>, where the call may have raised.\<close>

definition plus_bytes :: "error + byte list \<Rightarrow> byte list \<Rightarrow> error + byte list" where
  "plus_bytes r bs = (case r of Inl e \<Rightarrow> Inl e | Inr hdr \<Rightarrow> Inr (hdr @ bs))"

definition expected_arm64_bytes :: "error + byte list" where
  "expected_arm64_bytes =
     plus_bytes (gen_headers_default 183 (int (length ARM64_INSTRUCTIONS))) ARM64_INSTRUCTIONS"

definition expected_i386_bytes :: "error + byte list" where
  "expected_i386_bytes =
     plus_bytes (gen_headers 3 (int (length I386_INSTRUCTIONS)) False False 0) I386_INSTRUCTIONS"

definition expected_riscv64_bytes :: "error + byte list" where
  "expected_riscv64_bytes =
     plus_bytes (gen_headers 243 (int (length RISCV64_INSTRUCTIONS)) True False 5)
       RISCV64_INSTRUCTIONS"

definition expected_s390x_bytes :: "error + byte list" where
  "expected_s390x_bytes =
     plus_bytes (gen_headers 22 (int (length S390X_INSTRUCTIONS)) True True 0) S390X_INSTRUCTIONS"

definition expected_x86_64_bytes :: "error + byte list" where
  "expected_x86_64_bytes =
     plus_bytes (gen_headers_default 62 (int (length X86_64_INSTRUCTIONS))) X86_64_INSTRUCTIONS"

text \<open>
  The directory of the script maps a file name to the file's bytes; \<open>read_bytes\<close> raises
  \<open>OSError\<close> for a file that is not there.
\<close>

type_synonym files = "string \<Rightarrow> byte list option"

definition read_bytes :: "files \<Rightarrow> string \<Rightarrow> error + byte list" where
  "read_bytes dir name = (case dir name of None \<Rightarrow> Inl OSError | Some bs \<Rightarrow> Inr bs)"

text \<open>\<open>bytes.hex()\<close>: two lower-case digits for every byte.\<close>

definition hexdigit :: "nat \<Rightarrow> char" where
  "hexdigit d = ''0123456789abcdef'' ! d"

definition hex :: "byte list \<Rightarrow> string" where
  "hex bs = concat (map (\<lambda>b. [hexdigit (unat b div 16), hexdigit (unat b mod 16)]) bs)"

text \<open>The f-string \<open>{e=}\<close> prints the text of \<open>e\<close>, an equals sign and the \<open>repr\<close> of its value.\<close>

definition debug_hex :: "string \<Rightarrow> byte list \<Rightarrow> string" where
  "debug_hex name bs = name @ ''.hex()='' @ [CHR 0x27] @ hex bs @ [CHR 0x27]"

text \<open>
  The state of the comparison: the counter \<open>fails\<close> and the lines printed so far. The body
  of every \<open>if\<close> prints its lines and adds one to \<open>fails\<close>.
\<close>

record state =
  fails :: int
  stdout :: "string list"

definition mismatch :: "string list \<Rightarrow> state \<Rightarrow> state" where
  "mismatch msgs s = s\<lparr>stdout := stdout s @ msgs, fails := fails s + 1\<rparr>"

definition compare_all ::
  "byte list \<Rightarrow> byte list \<Rightarrow> byte list \<Rightarrow> byte list \<Rightarrow> byte list \<Rightarrow> byte list \<Rightarrow> byte list
   \<Rightarrow> byte list \<Rightarrow> byte list \<Rightarrow> byte list \<Rightarrow> state" where
  "compare_all arm64_bytes expected_arm64 i386_bytes expected_i386 riscv64_bytes
     expected_riscv64 s390x_bytes expected_s390x x86_64_bytes expected_x86_64 =
     (let s = \<lparr>fails = 0, stdout = []\<rparr>;
          s = (if arm64_bytes \<noteq> expected_arm64
               then mismatch [''MISMATCH! arm64_bytes != expected_arm64_bytes''] s else s);
          s = (if i386_bytes \<noteq> expected_i386
               then mismatch [''MISMATCH! i386_bytes != expected_i386_bytes''] s else s);
          s = (if riscv64_bytes \<noteq> expected_riscv64
               then mismatch [''MISMATCH! riscv64_bytes != expected_riscv64_bytes'',
                              debug_hex ''expected_riscv64_bytes'' expected_riscv64,
                              ''         '' @ debug_hex ''riscv64_bytes'' riscv64_bytes] s
               else s);
          s = (if s390x_bytes \<noteq> expected_s390x
               then mismatch [''MISMATCH! s390x_bytes != expected_s390x_bytes''] s else s);
          s = (if x86_64_bytes \<noteq> expected_x86_64
               then mismatch [''MISMATCH! x86_64_bytes != expected_x86_64_bytes''] s else s)
      in s)"

text \<open>
  The module from its first read to \<open>sys.exit(fails)\<close>: the reads and the expected bytes
  alternate, in the order of the source, and the first exception ends the run.
\<close>

definition script :: "files \<Rightarrow> error + state" where
  "script dir =
     (case read_bytes dir ''arm64'' of Inl e \<Rightarrow> Inl e | Inr arm64_bytes \<Rightarrow>
      (case expected_arm64_bytes of Inl e \<Rightarrow> Inl e | Inr expected_arm64 \<Rightarrow>
      (case read_bytes dir ''i386'' of Inl e \<Rightarrow> Inl e | Inr i386_bytes \<Rightarrow>
      (case expected_i386_bytes of Inl e \<Rightarrow> Inl e | Inr expected_i386 \<Rightarrow>
      (case read_bytes dir ''riscv64'' of Inl e \<Rightarrow> Inl e | Inr riscv64_bytes \<Rightarrow>
      (case expected_riscv64_bytes of Inl e \<Rightarrow> Inl e | Inr expected_riscv64 \<Rightarrow>
      (case read_bytes dir ''s390x'' of Inl e \<Rightarrow> Inl e | Inr s390x_bytes \<Rightarrow>
      (case expected_s390x_bytes of Inl e \<Rightarrow> Inl e | Inr expected_s390x \<Rightarrow>
      (case read_bytes dir ''x86_64'' of Inl e \<Rightarrow> Inl e | Inr x86_64_bytes \<Rightarrow>
      (case expected_x86_64_bytes of Inl e \<Rightarrow> Inl e | Inr expected_x86_64 \<Rightarrow>
         Inr (compare_all arm64_bytes expected_arm64 i386_bytes expected_i386 riscv64_bytes
                expected_riscv64 s390x_bytes expected_s390x x86_64_bytes
                expected_x86_64)))))))))))"

text \<open>
  The exit status of the process: the argument of \<open>sys.exit\<close>, or 1 when an exception
  was not caught.
\<close>

definition exit_status :: "error + state \<Rightarrow> int" where
  "exit_status r = (case r of Inl e \<Rightarrow> 1 | Inr s \<Rightarrow> fails s)"

text \<open>The number of mismatch messages among the printed lines.\<close>

definition reported :: "error + state \<Rightarrow> nat" where
  "reported r =
     (case r of Inl e \<Rightarrow> 0
      | Inr s \<Rightarrow> length (filter (\<lambda>l. take 9 l = ''MISMATCH!'') (stdout s)))"

text \<open>
  The five fixtures with the bytes each is compared with, and those whose file differs.
\<close>

definition fixtures :: "(string \<times> (error + byte list)) list" where
  "fixtures =
     [(''arm64'', expected_arm64_bytes), (''i386'', expected_i386_bytes),
      (''riscv64'', expected_riscv64_bytes), (''s390x'', expected_s390x_bytes),
      (''x86_64'', expected_x86_64_bytes)]"

definition differs :: "files \<Rightarrow> string \<times> (error + byte list) \<Rightarrow> bool" where
  "differs dir f = (read_bytes dir (fst f) \<noteq> snd f)"

definition differing :: "files \<Rightarrow> (string \<times> (error + byte list)) list" where
  "differing dir = filter (differs dir) fixtures"

text \<open>A directory in which every fixture holds the expected bytes.\<close>

definition matching_dir :: files where
  "matching_dir name =
     (case map_of fixtures name of Some (Inr bs) \<Rightarrow> Some bs | _ \<Rightarrow> None)"

section \<open>The bytes that \<open>gen_headers\<close> returns\<close>

lemma length_le_bytes [simp]: "length (le_bytes n v) = n"
  by (induction n arbitrary: v) simp_all

lemma length_ordered_bytes [simp]: "length (ordered_bytes be v n) = n"
  by (simp add: ordered_bytes_def)

lemma int_encode_eq:
  "int_encode be v l =
     (if 0 \<le> v \<and> v < 256 ^ l then Inr (ordered_bytes be v l) else Inl OverflowError)"
  by (simp add: int_encode_def to_bytes_def)

lemma append_encoded_Inl [simp]: "append_encoded be v l (Inl e) = Inl e"
  by (simp add: append_encoded_def)

lemma append_encoded_Inr:
  "append_encoded be v l (Inr ret) =
     (if 0 \<le> v \<and> v < 256 ^ l then Inr (ret @ ordered_bytes be v l) else Inl OverflowError)"
  by (simp add: append_encoded_def int_encode_eq)

lemma replicate_7: "replicate 7 x = [x, x, x, x, x, x, x]"
  by (simp add: eval_nat_numeral)

lemma gen_headers_64:
  assumes "in_range t n True fl"
  shows "gen_headers t n True be fl = Inr (concat (header_fields t n True be fl))"
  using assms
  by (simp add: gen_headers_def in_range_def append_encoded_Inr e_ident_def replicate_7
      header_fields_def fields64_def)

lemma gen_headers_32:
  assumes "in_range t n False fl"
  shows "gen_headers t n False be fl = Inr (concat (header_fields t n False be fl))"
  using assms
  by (simp add: gen_headers_def in_range_def append_encoded_Inr e_ident_def replicate_7
      header_fields_def fields32_def)

lemma gen_headers_in_range:
  "in_range t n is64bit fl \<Longrightarrow>
   gen_headers t n is64bit be fl = Inr (concat (header_fields t n is64bit be fl))"
  by (cases is64bit) (simp_all add: gen_headers_64 gen_headers_32)

lemma gen_headers_raises:
  assumes "\<not> in_range t n is64bit fl"
  shows "gen_headers t n is64bit be fl = Inl OverflowError"
  using assms
  by (cases is64bit) (auto simp add: gen_headers_def in_range_def append_encoded_Inr)

lemma gen_headers_InrD:
  assumes "gen_headers t n is64bit be fl = Inr bs"
  shows "in_range t n is64bit fl" and "bs = concat (header_fields t n is64bit be fl)"
proof -
  show r: "in_range t n is64bit fl"
    using assms gen_headers_raises [of t n is64bit fl be] by auto
  show "bs = concat (header_fields t n is64bit be fl)"
    using assms gen_headers_in_range [OF r, of be] by simp
qed

lemma header_bytes_64:
  "concat (header_fields t n True be fl) =
     e_ident True be @ ordered_bytes be 2 2 @ ordered_bytes be t 2 @ ordered_bytes be 1 4
     @ ordered_bytes be 0x10078 8 @ ordered_bytes be 64 8 @ ordered_bytes be 0 8
     @ ordered_bytes be fl 4 @ ordered_bytes be 64 2 @ ordered_bytes be 56 2
     @ ordered_bytes be 1 2 @ ordered_bytes be 0 2 @ ordered_bytes be 0 2
     @ ordered_bytes be 0 2 @ ordered_bytes be 1 4 @ ordered_bytes be 5 4
     @ ordered_bytes be 0 8 @ ordered_bytes be 0x10000 8 @ ordered_bytes be 0 8
     @ ordered_bytes be (120 + n) 8 @ ordered_bytes be (120 + n) 8 @ ordered_bytes be 2 8"
  by (simp add: header_fields_def fields64_def e_ident_def)

lemma header_bytes_32:
  "concat (header_fields t n False be fl) =
     e_ident False be @ ordered_bytes be 2 2 @ ordered_bytes be t 2 @ ordered_bytes be 1 4
     @ ordered_bytes be 0x10054 4 @ ordered_bytes be 52 4 @ ordered_bytes be 0 4
     @ ordered_bytes be fl 4 @ ordered_bytes be 52 2 @ ordered_bytes be 32 2
     @ ordered_bytes be 1 2 @ ordered_bytes be 0 2 @ ordered_bytes be 0 2
     @ ordered_bytes be 0 2 @ ordered_bytes be 1 4
     @ ordered_bytes be 0 4 @ ordered_bytes be 0x10000 4 @ ordered_bytes be 0 4
     @ ordered_bytes be (84 + n) 4 @ ordered_bytes be (84 + n) 4 @ ordered_bytes be 5 4
     @ ordered_bytes be 2 4"
  by (simp add: header_fields_def fields32_def e_ident_def)

lemma length_e_ident [simp]: "length (e_ident is64bit be) = 16"
  by (simp add: e_ident_def)

lemma length_header_bytes:
  "length (concat (header_fields t n is64bit be fl)) = (if is64bit then 120 else 84)"
  by (simp add: header_bytes_64 header_bytes_32)

lemma le_bytes_numeral:
  "le_bytes (numeral k) v = word_of_int (v mod 256) # le_bytes (pred_numeral k) (v div 256)"
  by (simp add: numeral_eq_Suc)

lemma int_encode_in_range:
  "0 \<le> v \<Longrightarrow> v < 256 ^ l \<Longrightarrow> int_encode be v l = Inr (ordered_bytes be v l)"
  by (simp add: int_encode_eq)

lemma split_fields_concat: "map length fs = ws \<Longrightarrow> split_fields ws (concat fs) = fs"
  by (induction fs arbitrary: ws) auto

lemma replicate_16: "replicate 16 x = [x, x, x, x, x, x, x, x, x, x, x, x, x, x, x, x]"
  by (simp add: eval_nat_numeral)

lemma field_widths_header:
  "map length (header_fields t n is64bit be fl) = field_widths is64bit"
  by (simp add: header_fields_def fields64_def fields32_def e_ident_def field_widths_def
      replicate_16)

lemma split_fields_header:
  "gen_headers t n is64bit be fl = Inr bs \<Longrightarrow>
     split_fields (field_widths is64bit) bs = header_fields t n is64bit be fl"
  by (drule gen_headers_InrD(2)) (simp add: split_fields_concat field_widths_header)

lemma list_update_5: "(a # b # c # d # e # f # xs)[5 := y] = a # b # c # d # e # y # xs"
  by (simp add: eval_nat_numeral)

lemma header_bytes_big:
  "concat (header_fields t n is64bit True fl) =
     set_byte 5 2 (concat (map rev (header_fields t n is64bit False fl)))"
  by (simp add: header_fields_def fields64_def fields32_def e_ident_def ordered_bytes_def
      set_byte_def list_update_5)

lemma permission_bits: "PF_X = 1" "PF_W = 2" "PF_R = 4"
  by (simp_all add: PF_R_def PF_X_def PF_W_def)

section \<open>The expected bytes and the comparison, evaluated\<close>

lemma expected_arm64:
  "expected_arm64_bytes = Inr (concat (header_fields 183 12 True False 0) @ ARM64_INSTRUCTIONS)"
proof -
  have "int (length ARM64_INSTRUCTIONS) = 12"
    by (simp add: ARM64_INSTRUCTIONS_def)
  then show ?thesis
    by (simp add: expected_arm64_bytes_def gen_headers_default_def plus_bytes_def
        gen_headers_in_range in_range_def)
qed

lemma expected_i386:
  "expected_i386_bytes = Inr (concat (header_fields 3 7 False False 0) @ I386_INSTRUCTIONS)"
proof -
  have "int (length I386_INSTRUCTIONS) = 7"
    by (simp add: I386_INSTRUCTIONS_def)
  then show ?thesis
    by (simp add: expected_i386_bytes_def plus_bytes_def gen_headers_in_range in_range_def)
qed

lemma expected_riscv64:
  "expected_riscv64_bytes =
     Inr (concat (header_fields 243 10 True False 5) @ RISCV64_INSTRUCTIONS)"
proof -
  have "int (length RISCV64_INSTRUCTIONS) = 10"
    by (simp add: RISCV64_INSTRUCTIONS_def)
  then show ?thesis
    by (simp add: expected_riscv64_bytes_def plus_bytes_def gen_headers_in_range in_range_def)
qed

lemma expected_s390x:
  "expected_s390x_bytes = Inr (concat (header_fields 22 6 True True 0) @ S390X_INSTRUCTIONS)"
proof -
  have "int (length S390X_INSTRUCTIONS) = 6"
    by (simp add: S390X_INSTRUCTIONS_def)
  then show ?thesis
    by (simp add: expected_s390x_bytes_def plus_bytes_def gen_headers_in_range in_range_def)
qed

lemma expected_x86_64:
  "expected_x86_64_bytes = Inr (concat (header_fields 62 7 True False 0) @ X86_64_INSTRUCTIONS)"
proof -
  have "int (length X86_64_INSTRUCTIONS) = 7"
    by (simp add: X86_64_INSTRUCTIONS_def)
  then show ?thesis
    by (simp add: expected_x86_64_bytes_def gen_headers_default_def plus_bytes_def
        gen_headers_in_range in_range_def)
qed

lemmas expected_bytes =
  expected_arm64 expected_i386 expected_riscv64 expected_s390x expected_x86_64

lemma fails_compare_all:
  "fails (compare_all a ea i ei r er s es x ex) =
     (if a \<noteq> ea then 1 else 0) + (if i \<noteq> ei then 1 else 0) + (if r \<noteq> er then 1 else 0)
     + (if s \<noteq> es then 1 else 0) + (if x \<noteq> ex then 1 else 0)"
  by (simp add: compare_all_def mismatch_def)

lemma take_9_debug_hex:
  "take 9 (debug_hex ''expected_riscv64_bytes'' bs) = ''expected_''"
  "take 9 (''         '' @ debug_hex ''riscv64_bytes'' bs) = ''         ''"
  by (simp_all add: debug_hex_def)

lemma reported_compare_all:
  "length (filter (\<lambda>l. take 9 l = ''MISMATCH!'') (stdout (compare_all a ea i ei r er s es x ex))) =
     (if a \<noteq> ea then 1 else 0) + (if i \<noteq> ei then 1 else 0) + (if r \<noteq> er then 1 else 0)
     + (if s \<noteq> es then 1 else 0) + (if x \<noteq> ex then 1 else 0)"
  by (simp add: compare_all_def mismatch_def take_9_debug_hex)

lemma script_reads:
  assumes "dir ''arm64'' = Some a" "dir ''i386'' = Some i" "dir ''riscv64'' = Some r"
    "dir ''s390x'' = Some s" "dir ''x86_64'' = Some x"
  shows "script dir =
     Inr (compare_all a (concat (header_fields 183 12 True False 0) @ ARM64_INSTRUCTIONS)
            i (concat (header_fields 3 7 False False 0) @ I386_INSTRUCTIONS)
            r (concat (header_fields 243 10 True False 5) @ RISCV64_INSTRUCTIONS)
            s (concat (header_fields 22 6 True True 0) @ S390X_INSTRUCTIONS)
            x (concat (header_fields 62 7 True False 0) @ X86_64_INSTRUCTIONS))"
  using assms by (simp add: script_def read_bytes_def expected_bytes)

lemma length_differing:
  assumes "dir ''arm64'' = Some a" "dir ''i386'' = Some i" "dir ''riscv64'' = Some r"
    "dir ''s390x'' = Some s" "dir ''x86_64'' = Some x"
  shows "length (differing dir) =
     (if a \<noteq> concat (header_fields 183 12 True False 0) @ ARM64_INSTRUCTIONS then 1 else 0)
     + (if i \<noteq> concat (header_fields 3 7 False False 0) @ I386_INSTRUCTIONS then 1 else 0)
     + (if r \<noteq> concat (header_fields 243 10 True False 5) @ RISCV64_INSTRUCTIONS then 1 else 0)
     + (if s \<noteq> concat (header_fields 22 6 True True 0) @ S390X_INSTRUCTIONS then 1 else 0)
     + (if x \<noteq> concat (header_fields 62 7 True False 0) @ X86_64_INSTRUCTIONS then 1 else 0)"
  using assms
  by (simp add: differing_def fixtures_def differs_def read_bytes_def expected_bytes)

lemma all_present:
  assumes "\<forall>f \<in> set fixtures. dir (fst f) \<noteq> None"
  obtains a i r s x where "dir ''arm64'' = Some a" "dir ''i386'' = Some i"
    "dir ''riscv64'' = Some r" "dir ''s390x'' = Some s" "dir ''x86_64'' = Some x"
  using assms by (auto simp add: fixtures_def)

lemma script_counts:
  assumes "\<forall>f \<in> set fixtures. dir (fst f) \<noteq> None"
  shows "exit_status (script dir) = int (length (differing dir))"
    and "reported (script dir) = length (differing dir)"
proof -
  from assms obtain a i r s x where d: "dir ''arm64'' = Some a" "dir ''i386'' = Some i"
    "dir ''riscv64'' = Some r" "dir ''s390x'' = Some s" "dir ''x86_64'' = Some x"
    by (rule all_present)
  show "exit_status (script dir) = int (length (differing dir))"
    by (simp add: script_reads [OF d] length_differing [OF d] exit_status_def fails_compare_all)
  show "reported (script dir) = length (differing dir)"
    by (simp add: script_reads [OF d] length_differing [OF d] reported_def
        reported_compare_all)
qed

lemma list_update_neq: "i < length bs \<Longrightarrow> b \<noteq> bs ! i \<Longrightarrow> bs[i := b] \<noteq> bs"
  by (metis nth_list_update_eq)

lemma length_filter_flip:
  assumes "distinct (map k xs)" "f \<in> set xs" "\<not> P f" "P' f"
    "\<forall>g \<in> set xs. k g \<noteq> k f \<longrightarrow> P' g = P g"
  shows "length (filter P' xs) = length (filter P xs) + 1"
  using assms
proof (induction xs)
  case Nil
  then show ?case by simp
next
  case (Cons y ys)
  show ?case
  proof (cases "y = f")
    case True
    with Cons.prems have "\<forall>g \<in> set ys. P' g = P g"
      by (metis distinct.simps(2) image_eqI list.set_intros(2) list.simps(9) set_map)
    then have "filter P' ys = filter P ys"
      by (simp cong: filter_cong)
    with True Cons.prems show ?thesis
      by simp
  next
    case False
    with Cons.prems have "f \<in> set ys" "k y \<noteq> k f"
      by auto
    with Cons show ?thesis
      by simp
  qed
qed

lemma distinct_fixtures: "distinct (map fst fixtures)"
  by (simp add: fixtures_def)

lemma differing_mutated:
  assumes f: "f \<in> set fixtures"
    and m: "read_bytes dir (fst f) = snd f" "dir (fst f) = Some bs"
    and i: "i < length bs" "b \<noteq> bs ! i"
  shows "length (differing (dir(fst f \<mapsto> bs[i := b]))) = length (differing dir) + 1"
proof -
  have n: "bs[i := b] \<noteq> bs"
    using i by (rule list_update_neq)
  from m have e: "snd f = Inr bs"
    by (simp add: read_bytes_def)
  have "\<not> differs dir f"
    using m by (simp add: differs_def)
  moreover have "differs (dir(fst f \<mapsto> bs[i := b])) f"
    using n e by (simp add: differs_def read_bytes_def)
  moreover have "\<forall>g \<in> set fixtures. fst g \<noteq> fst f \<longrightarrow>
      differs (dir(fst f \<mapsto> bs[i := b])) g = differs dir g"
    by (simp add: differs_def read_bytes_def)
  ultimately show ?thesis
    unfolding differing_def using distinct_fixtures f
    by (intro length_filter_flip [where k = fst]) simp_all
qed

text \<open>A fixture that cannot be read ends the run before anything is compared.\<close>

lemma script_missing_file:
  "dir ''arm64'' = None \<Longrightarrow> script dir = Inl OSError \<and> exit_status (script dir) = 1"
  by (simp add: script_def read_bytes_def exit_status_def)

section \<open>Properties of the header and of the comparison\<close>

text \<open>
  C1. Whenever \<open>gen_headers\<close> returns, the result is 120 (64 + 56) bytes long with the
  64-bit selector and 84 (52 + 32) bytes long with the 32-bit selector, whatever
  \<open>target_id\<close>, \<open>instr_len\<close>, \<open>flags\<close> and the byte order are; and it does return for
  all values in range.
\<close>

theorem gen_headers_length:
  "(in_range target_id instr_len is64bit flags \<longrightarrow>
      (\<exists>bs. gen_headers target_id instr_len is64bit be flags = Inr bs)) \<and>
   (\<forall>bs. gen_headers target_id instr_len is64bit be flags = Inr bs \<longrightarrow>
      length bs = (if is64bit then 64 + 56 else 52 + 32))"
  by (auto simp add: gen_headers_in_range length_header_bytes dest!: gen_headers_InrD(2))

theorem gen_headers_length_witness:
  "(\<exists>bs. gen_headers 62 4 True False 0 = Inr bs \<and> length bs = 120) \<and>
   (\<exists>bs. gen_headers 3 7 False True 0 = Inr bs \<and> length bs = 84)"
  using gen_headers_length [of 62 4 True 0 False] gen_headers_length [of 3 7 False 0 True]
  by (auto simp add: in_range_def)

text \<open>
  C7. Every header that \<open>gen_headers\<close> returns starts with the bytes 7F 45 4C 46, which are
  0x7F and the ASCII codes of \<open>ELF\<close>.
\<close>

theorem gen_headers_magic:
  "gen_headers target_id instr_len is64bit be flags = Inr bs \<Longrightarrow>
     take 4 bs = [0x7F, 0x45, 0x4C, 0x46] \<and> take 4 bs = 0x7F # map of_char ''ELF''"
  by (cases is64bit)
    (auto dest!: gen_headers_InrD(2) simp add: header_bytes_64 header_bytes_32 e_ident_def)

theorem gen_headers_magic_witness:
  "\<exists>bs. gen_headers 183 12 True False 0 = Inr bs \<and> take 4 bs = [0x7F, 0x45, 0x4C, 0x46]"
  using gen_headers_magic [of 183 12 True False 0]
    gen_headers_in_range [of 183 12 True 0 False]
  by (simp add: in_range_def)

text \<open>
  C10. \<open>gen_headers\<close> raises \<open>OverflowError\<close> and returns nothing when \<open>target_id\<close> is
  negative or at least \<open>2 ^ 16\<close>, and when \<open>flags\<close> is negative or at least \<open>2 ^ 32\<close>.
\<close>

theorem gen_headers_out_of_range:
  "target_id < 0 \<or> 2 ^ 16 \<le> target_id \<or> flags < 0 \<or> 2 ^ 32 \<le> flags \<Longrightarrow>
     gen_headers target_id instr_len is64bit be flags = Inl OverflowError"
  by (rule gen_headers_raises) (auto simp add: in_range_def)

theorem gen_headers_out_of_range_witness:
  "gen_headers 65536 4 True False 0 = Inl OverflowError \<and>
   gen_headers (- 1) 4 False True 0 = Inl OverflowError \<and>
   gen_headers 62 4 True False 4294967296 = Inl OverflowError \<and>
   gen_headers 62 4 True False (- 1) = Inl OverflowError"
  using gen_headers_out_of_range [of 65536 0 4 True False]
    gen_headers_out_of_range [of "- 1" 0 4 False True]
    gen_headers_out_of_range [of 62 4294967296 4 True False]
    gen_headers_out_of_range [of 62 "- 1" 4 True False]
  by simp

text \<open>
  C4. In every header that \<open>gen_headers\<close> returns, \<open>e_entry\<close> (at offset 24, one address
  wide) encodes \<open>0x10000\<close> plus the combined header size, and \<open>e_phoff\<close> (the next
  address) encodes the size of the file header: \<open>0x10000 + 120\<close> and 64 in a 64-bit
  header, \<open>0x10000 + 84\<close> and 52 in a 32-bit one, whatever the target is. The load
  base \<open>0x10000\<close> itself is the \<open>p_vaddr\<close> of the segment.
\<close>

theorem gen_headers_entry_phoff:
  "gen_headers target_id instr_len is64bit be flags = Inr bs \<Longrightarrow>
     (if is64bit
      then Inr (slice 24 32 bs) = int_encode be (0x10000 + 120) 8 \<and>
           Inr (slice 32 40 bs) = int_encode be 64 8 \<and>
           Inr (slice 80 88 bs) = int_encode be 0x10000 8
      else Inr (slice 24 28 bs) = int_encode be (0x10000 + 84) 4 \<and>
           Inr (slice 28 32 bs) = int_encode be 52 4 \<and>
           Inr (slice 60 64 bs) = int_encode be 0x10000 4)"
  by (cases is64bit)
    (auto dest!: gen_headers_InrD(2)
      simp add: header_bytes_64 header_bytes_32 slice_def int_encode_eq)

theorem gen_headers_entry_phoff_witness:
  "\<exists>bs. gen_headers 22 6 True True 0 = Inr bs \<and>
        slice 24 32 bs = [0, 0, 0, 0, 0, 1, 0, 0x78] \<and>
        slice 32 40 bs = [0, 0, 0, 0, 0, 0, 0, 0x40]"
proof -
  have g: "gen_headers 22 6 True True 0 = Inr (concat (header_fields 22 6 True True 0))"
    by (simp add: gen_headers_in_range in_range_def)
  from gen_headers_entry_phoff [OF g] show ?thesis
    using g by (auto simp add: int_encode_eq ordered_bytes_def le_bytes_numeral)
qed

text \<open>
  C5. In every header that \<open>gen_headers\<close> returns, \<open>p_filesz\<close> and \<open>p_memsz\<close> hold the same
  bytes, which encode the combined header size plus \<open>instr_len\<close>.
\<close>

theorem gen_headers_filesz_memsz:
  "gen_headers target_id instr_len is64bit be flags = Inr bs \<Longrightarrow>
     (if is64bit
      then Inr (slice 96 104 bs) = int_encode be (120 + instr_len) 8 \<and>
           Inr (slice 104 112 bs) = int_encode be (120 + instr_len) 8 \<and>
           slice 96 104 bs = slice 104 112 bs
      else Inr (slice 68 72 bs) = int_encode be (84 + instr_len) 4 \<and>
           Inr (slice 72 76 bs) = int_encode be (84 + instr_len) 4 \<and>
           slice 68 72 bs = slice 72 76 bs)"
proof -
  assume g: "gen_headers target_id instr_len is64bit be flags = Inr bs"
  note r = gen_headers_InrD(1) [OF g] and b = gen_headers_InrD(2) [OF g]
  show ?thesis
  proof (cases is64bit)
    case True
    with r have "int_encode be (120 + instr_len) 8 = Inr (ordered_bytes be (120 + instr_len) 8)"
      by (simp add: in_range_def int_encode_eq)
    with True b show ?thesis
      by (simp add: header_bytes_64 slice_def)
  next
    case False
    with r have "int_encode be (84 + instr_len) 4 = Inr (ordered_bytes be (84 + instr_len) 4)"
      by (simp add: in_range_def int_encode_eq)
    with False b show ?thesis
      by (simp add: header_bytes_32 slice_def)
  qed
qed

theorem gen_headers_filesz_memsz_witness:
  "\<exists>bs. gen_headers 3 7 False False 0 = Inr bs \<and>
        slice 68 72 bs = [0x5b, 0, 0, 0] \<and> slice 72 76 bs = [0x5b, 0, 0, 0]"
proof -
  have g: "gen_headers 3 7 False False 0 = Inr (concat (header_fields 3 7 False False 0))"
    by (simp add: gen_headers_in_range in_range_def)
  from gen_headers_filesz_memsz [OF g] show ?thesis
    using g by (auto simp add: int_encode_eq ordered_bytes_def le_bytes_numeral)
qed

text \<open>
  C2, as amended. The header returned with \<open>be=True\<close> is the header returned with
  \<open>be=False\<close> with the bytes of every field in reverse order, except that the single
  byte at index 5 (\<open>EI_DATA\<close>), which is 1 with \<open>be=False\<close>, is 2. So every multi-byte
  field is reversed, and every single-byte field but \<open>EI_DATA\<close> is unchanged.
\<close>

theorem gen_headers_byte_order:
  "gen_headers target_id instr_len is64bit False flags = Inr bs \<Longrightarrow>
     gen_headers target_id instr_len is64bit True flags =
       Inr (set_byte 5 2 (reversed_fields (field_widths is64bit) bs)) \<and>
     bs ! 5 = 1 \<and>
     take 16 (field_widths is64bit) = replicate 16 1 \<and>
     sum_list (field_widths is64bit) = length bs"
proof -
  assume g: "gen_headers target_id instr_len is64bit False flags = Inr bs"
  note r = gen_headers_InrD(1) [OF g] and b = gen_headers_InrD(2) [OF g]
  have "reversed_fields (field_widths is64bit) bs =
      concat (map rev (header_fields target_id instr_len is64bit False flags))"
    by (simp add: reversed_fields_def split_fields_header [OF g])
  then have "gen_headers target_id instr_len is64bit True flags =
      Inr (set_byte 5 2 (reversed_fields (field_widths is64bit) bs))"
    by (simp add: gen_headers_in_range [OF r] header_bytes_big)
  moreover have "bs ! 5 = 1"
    by (simp add: b header_fields_def e_ident_def)
  moreover have "take 16 (field_widths is64bit) = replicate 16 1"
    by (simp add: field_widths_def)
  moreover have "sum_list (field_widths is64bit) = length bs"
    by (simp add: b length_header_bytes field_widths_def sum_list_replicate)
  ultimately show ?thesis by simp
qed

theorem gen_headers_byte_order_witness:
  "\<exists>bs. gen_headers 22 6 True False 0 = Inr bs \<and>
        gen_headers 22 6 True True 0 =
          Inr (set_byte 5 2 (reversed_fields (field_widths True) bs)) \<and> bs ! 5 = 1"
proof -
  have g: "gen_headers 22 6 True False 0 = Inr (concat (header_fields 22 6 True False 0))"
    by (simp add: gen_headers_in_range in_range_def)
  from gen_headers_byte_order [OF g] show ?thesis
    using g by simp
qed

theorem gen_headers_byte_order_counterexample:
  "gen_headers 62 4 True True 0 \<noteq>
     map_sum id (reversed_fields (field_widths True)) (gen_headers 62 4 True False 0) \<and>
   map_sum id (slice 5 6) (gen_headers 62 4 True False 0) = Inr [1] \<and>
   map_sum id (slice 5 6) (gen_headers 62 4 True True 0) = Inr [2]"
proof -
  have r: "in_range 62 4 True 0"
    by (simp add: in_range_def)
  have l: "gen_headers 62 4 True False 0 = Inr (concat (header_fields 62 4 True False 0))"
    by (rule gen_headers_in_range [OF r])
  have b: "gen_headers 62 4 True True 0 = Inr (concat (header_fields 62 4 True True 0))"
    by (rule gen_headers_in_range [OF r])
  have f: "reversed_fields (field_widths True) (concat (header_fields 62 4 True False 0)) =
      concat (map rev (header_fields 62 4 True False 0))"
    by (simp add: reversed_fields_def split_fields_concat field_widths_header)
  have "concat (header_fields 62 4 True True 0) ! 5 = 2"
    by (simp add: header_fields_def e_ident_def)
  moreover have "concat (map rev (header_fields 62 4 True False 0)) ! 5 = 1"
    by (simp add: header_fields_def e_ident_def)
  ultimately have "concat (header_fields 62 4 True True 0) \<noteq>
      concat (map rev (header_fields 62 4 True False 0))"
    by auto
  moreover have "slice 5 6 (concat (header_fields 62 4 True False 0)) = [1]"
    by (simp add: header_fields_def e_ident_def slice_def)
  moreover have "slice 5 6 (concat (header_fields 62 4 True True 0)) = [2]"
    by (simp add: header_fields_def e_ident_def slice_def)
  ultimately show ?thesis
    by (simp add: l b f)
qed

text \<open>
  C3. Every header that \<open>gen_headers\<close> returns has one program-header entry (\<open>e_phnum\<close> is
  1 and the entry fills the rest of the header). Its \<open>p_type\<close> is \<open>PT_LOAD\<close> and its
  \<open>p_flags\<close> are \<open>PF_R | PF_X\<close>, which has no write bit. The four bytes of \<open>p_flags\<close>
  directly follow the four bytes of \<open>p_type\<close> in a 64-bit header; in a 32-bit header
  \<open>p_offset\<close> follows \<open>p_type\<close>, and \<open>p_flags\<close> directly precede \<open>p_align\<close>, the last
  field.
\<close>

theorem gen_headers_program_header:
  "gen_headers target_id instr_len is64bit be flags = Inr bs \<Longrightarrow>
     (PF_R OR PF_X) AND PF_W = 0 \<and>
     (if is64bit
      then Inr (slice 56 58 bs) = int_encode be 1 2 \<and>
           Inr (slice 64 68 bs) = int_encode be PT_LOAD 4 \<and>
           Inr (slice 68 72 bs) = int_encode be (PF_R OR PF_X) 4 \<and>
           Inr (slice 112 120 bs) = int_encode be 2 8 \<and>
           length bs = 120
      else Inr (slice 44 46 bs) = int_encode be 1 2 \<and>
           Inr (slice 52 56 bs) = int_encode be PT_LOAD 4 \<and>
           Inr (slice 56 60 bs) = int_encode be 0 4 \<and>
           Inr (slice 76 80 bs) = int_encode be (PF_R OR PF_X) 4 \<and>
           Inr (slice 80 84 bs) = int_encode be 2 4 \<and>
           length bs = 84)"
  by (cases is64bit)
    (auto dest!: gen_headers_InrD(2)
      simp add: header_bytes_64 header_bytes_32 slice_def int_encode_eq permission_bits
        PT_LOAD_def)

theorem gen_headers_program_header_witness:
  "(\<exists>bs. gen_headers 3 7 False False 0 = Inr bs \<and> length bs = 84 \<and>
         slice 52 56 bs = [1, 0, 0, 0] \<and> slice 76 80 bs = [5, 0, 0, 0] \<and>
         slice 80 84 bs = [2, 0, 0, 0]) \<and>
   (\<exists>bs. gen_headers 22 6 True True 0 = Inr bs \<and> length bs = 120 \<and>
         slice 64 68 bs = [0, 0, 0, 1] \<and> slice 68 72 bs = [0, 0, 0, 5] \<and>
         slice 112 120 bs = [0, 0, 0, 0, 0, 0, 0, 2])"
proof -
  have g: "gen_headers 3 7 False False 0 = Inr (concat (header_fields 3 7 False False 0))"
    by (simp add: gen_headers_in_range in_range_def)
  have h: "gen_headers 22 6 True True 0 = Inr (concat (header_fields 22 6 True True 0))"
    by (simp add: gen_headers_in_range in_range_def)
  from gen_headers_program_header [OF g] gen_headers_program_header [OF h] show ?thesis
    using g h
    by (simp add: int_encode_eq ordered_bytes_def le_bytes_numeral permission_bits
        PT_LOAD_def)
qed

text \<open>
  C9. If \<open>gen_headers\<close> returns for some \<open>flags\<close>, it returns for every other value of
  \<open>flags\<close> in \<open>[0, 2 ^ 32)\<close> a header of the same length that differs at most in the four
  bytes of \<open>e_flags\<close>, which are bytes 48 to 51 of a 64-bit header and bytes 36 to 39 of
  a 32-bit one, and which encode \<open>flags\<close>.
\<close>

theorem gen_headers_flags_frame:
  "gen_headers target_id instr_len is64bit be flags = Inr bs \<Longrightarrow>
   0 \<le> flags' \<Longrightarrow> flags' < 2 ^ 32 \<Longrightarrow>
     (\<exists>bs'. gen_headers target_id instr_len is64bit be flags' = Inr bs' \<and>
            length bs' = length bs \<and>
            (let off = (if is64bit then 48 else 36)
             in (\<forall>i < length bs. i < off \<or> off + 4 \<le> i \<longrightarrow> bs' ! i = bs ! i) \<and>
                Inr (slice off (off + 4) bs) = int_encode be flags 4 \<and>
                Inr (slice off (off + 4) bs') = int_encode be flags' 4))"
proof -
  assume g: "gen_headers target_id instr_len is64bit be flags = Inr bs"
    and f: "0 \<le> flags'" "flags' < 2 ^ 32"
  note r = gen_headers_InrD(1) [OF g] and b = gen_headers_InrD(2) [OF g]
  from r f have r': "in_range target_id instr_len is64bit flags'"
    by (auto simp add: in_range_def split: if_splits)
  let ?bs' = "concat (header_fields target_id instr_len is64bit be flags')"
  let ?off = "if is64bit then 48 else 36 :: nat"
  have g': "gen_headers target_id instr_len is64bit be flags' = Inr ?bs'"
    by (rule gen_headers_in_range [OF r'])
  have len: "length ?bs' = length bs"
    by (simp add: b length_header_bytes)
  have pre: "take ?off ?bs' = take ?off bs"
    by (simp add: b header_bytes_64 header_bytes_32)
  have post: "drop (?off + 4) ?bs' = drop (?off + 4) bs"
    by (simp add: b header_bytes_64 header_bytes_32)
  have same: "?bs' ! i = bs ! i" if "i < length bs" "i < ?off \<or> ?off + 4 \<le> i" for i
  proof (cases "i < ?off")
    case True
    then have "?bs' ! i = take ?off ?bs' ! i" "bs ! i = take ?off bs ! i"
      by simp_all
    with pre show ?thesis by simp
  next
    case False
    with that have le: "?off + 4 \<le> i" by simp
    then obtain k where k: "i = ?off + 4 + k"
      using le_Suc_ex by blast
    with that len have "?bs' ! i = drop (?off + 4) ?bs' ! k" "bs ! i = drop (?off + 4) bs ! k"
      by (simp_all add: nth_drop)
    with post show ?thesis by simp
  qed
  from r f have e: "int_encode be flags 4 = Inr (ordered_bytes be flags 4)"
    "int_encode be flags' 4 = Inr (ordered_bytes be flags' 4)"
    by (simp_all add: in_range_def int_encode_eq)
  have fl: "slice ?off (?off + 4) bs = ordered_bytes be flags 4"
    "slice ?off (?off + 4) ?bs' = ordered_bytes be flags' 4"
    by (simp_all add: b header_bytes_64 header_bytes_32 slice_def)
  show ?thesis
    using g' len same e fl by (simp add: Let_def)
qed

theorem gen_headers_flags_frame_witness:
  "\<exists>bs bs'. gen_headers 243 10 True False 0 = Inr bs \<and>
     gen_headers 243 10 True False 5 = Inr bs' \<and>
     take 48 bs' = take 48 bs \<and> drop 52 bs' = drop 52 bs \<and>
     slice 48 52 bs = [0, 0, 0, 0] \<and> slice 48 52 bs' = [5, 0, 0, 0]"
proof -
  have g: "gen_headers 243 10 True False 0 = Inr (concat (header_fields 243 10 True False 0))"
    by (simp add: gen_headers_in_range in_range_def)
  have h: "gen_headers 243 10 True False 5 = Inr (concat (header_fields 243 10 True False 5))"
    by (simp add: gen_headers_in_range in_range_def)
  have "take 48 (concat (header_fields 243 10 True False 5)) =
      take 48 (concat (header_fields 243 10 True False 0))"
    "drop 52 (concat (header_fields 243 10 True False 5)) =
      drop 52 (concat (header_fields 243 10 True False 0))"
    by (simp_all add: header_bytes_64)
  with gen_headers_flags_frame [OF g, of 5] show ?thesis
    using g h
    by (simp add: int_encode_eq ordered_bytes_def le_bytes_numeral)
qed

text \<open>
  C6. \<open>gen_headers(62, 4)\<close> with the defaults returns 120 bytes: byte 4 is 0x02
  (\<open>ELFCLASS64\<close>), byte 5 is 0x01 (\<open>ELFDATA2LSB\<close>), bytes 18 and 19 are 3E 00
  (\<open>e_machine\<close> 62) and the last eight bytes are 02 00 00 00 00 00 00 00 (alignment 2).
\<close>

theorem gen_headers_x86_64:
  "\<exists>bs. gen_headers_default 62 4 = Inr bs \<and> length bs = 120 \<and>
     bs ! 4 = 0x02 \<and> bs ! 5 = 0x01 \<and> slice 18 20 bs = [0x3E, 0x00] \<and>
     drop 112 bs = [0x02, 0x00, 0x00, 0x00, 0x00, 0x00, 0x00, 0x00]"
proof -
  let ?bs = "concat (header_fields 62 4 True False 0)"
  have "gen_headers_default 62 4 = Inr ?bs"
    by (simp add: gen_headers_default_def gen_headers_in_range in_range_def)
  moreover have "length ?bs = 120"
    by (simp add: length_header_bytes)
  moreover have "?bs ! 4 = 0x02" "?bs ! 5 = 0x01"
    by (simp_all add: header_fields_def e_ident_def)
  moreover have "slice 18 20 ?bs = [0x3E, 0x00]"
    by (simp add: header_bytes_64 slice_def ordered_bytes_def le_bytes_numeral)
  moreover have "drop 112 ?bs = [0x02, 0x00, 0x00, 0x00, 0x00, 0x00, 0x00, 0x00]"
    by (simp add: header_bytes_64 ordered_bytes_def le_bytes_numeral)
  ultimately show ?thesis
    by blast
qed

text \<open>
  C8. When the five fixture files can be read, the exit status of the script is the number
  of fixtures whose bytes differ from the expected bytes, and as many mismatch messages
  are printed: each of the five is compared whatever the others gave. Changing one byte
  of a fixture that matched raises both numbers by exactly one.
\<close>

theorem comparator_exit_status:
  "\<forall>f \<in> set fixtures. dir (fst f) \<noteq> None \<Longrightarrow>
     length fixtures = 5 \<and>
     exit_status (script dir) = int (length (differing dir)) \<and>
     reported (script dir) = length (differing dir) \<and>
     (\<forall>f \<in> set fixtures. \<forall>bs i b.
        read_bytes dir (fst f) = snd f \<and> dir (fst f) = Some bs \<and> i < length bs \<and> b \<noteq> bs ! i \<longrightarrow>
          exit_status (script (dir(fst f \<mapsto> bs[i := b]))) = exit_status (script dir) + 1 \<and>
          reported (script (dir(fst f \<mapsto> bs[i := b]))) = reported (script dir) + 1)"
proof -
  assume p: "\<forall>f \<in> set fixtures. dir (fst f) \<noteq> None"
  have "exit_status (script (dir(fst f \<mapsto> bs[i := b]))) = exit_status (script dir) + 1 \<and>
      reported (script (dir(fst f \<mapsto> bs[i := b]))) = reported (script dir) + 1"
    if f: "f \<in> set fixtures"
      and m: "read_bytes dir (fst f) = snd f" "dir (fst f) = Some bs"
      and i: "i < length bs" "b \<noteq> bs ! i"
    for f bs i b
  proof -
    have p': "\<forall>g \<in> set fixtures. (dir(fst f \<mapsto> bs[i := b])) (fst g) \<noteq> None"
      using p by simp
    show ?thesis
      using script_counts [OF p] script_counts [of "dir(fst f \<mapsto> bs[i := b])", OF p']
        differing_mutated [OF f m i]
      by simp
  qed
  moreover have "length fixtures = 5"
    by (simp add: fixtures_def)
  ultimately show ?thesis
    using script_counts [OF p] by blast
qed

theorem comparator_exit_status_witness:
  "exit_status (script matching_dir) = 0 \<and>
   exit_status (script (matching_dir(''x86_64'' \<mapsto> (the (matching_dir ''x86_64''))[0 := 0]))) = 1 \<and>
   reported (script (matching_dir(''x86_64'' \<mapsto> (the (matching_dir ''x86_64''))[0 := 0]))) = 1"
proof -
  let ?bs = "concat (header_fields 62 7 True False 0) @ X86_64_INSTRUCTIONS"
  let ?f = "(''x86_64'', expected_x86_64_bytes)"
  have p: "\<forall>f \<in> set fixtures. matching_dir (fst f) \<noteq> None"
    by (simp add: fixtures_def matching_dir_def expected_bytes)
  have d: "differing matching_dir = []"
    by (simp add: differing_def fixtures_def differs_def read_bytes_def matching_dir_def
        expected_bytes)
  have x: "matching_dir ''x86_64'' = Some ?bs"
    by (simp add: fixtures_def matching_dir_def expected_bytes)
  have f: "?f \<in> set fixtures"
    by (simp add: fixtures_def)
  have m: "read_bytes matching_dir (fst ?f) = snd ?f"
    by (simp add: read_bytes_def x expected_bytes)
  have i: "0 < length ?bs" "0 \<noteq> ?bs ! 0"
    by (simp_all add: header_fields_def e_ident_def)
  note t = comparator_exit_status [OF p]
  from t d have z: "exit_status (script matching_dir) = 0" "reported (script matching_dir) = 0"
    by simp_all
  have c: "read_bytes matching_dir (fst ?f) = snd ?f \<and> matching_dir (fst ?f) = Some ?bs \<and>
      0 < length ?bs \<and> 0 \<noteq> ?bs ! 0"
    using m x i by simp
  have "exit_status (script (matching_dir(fst ?f \<mapsto> ?bs[0 := 0]))) =
      exit_status (script matching_dir) + 1 \<and>
    reported (script (matching_dir(fst ?f \<mapsto> ?bs[0 := 0]))) =
      reported (script matching_dir) + 1"
    by (rule t [THEN conjunct2, THEN conjunct2, THEN conjunct2, rule_format, OF f c])
  with z x show ?thesis
    by simp
qed

end
